theory Spec2Isabelle
  imports Main
begin

section \<open>Data model\<close>

text \<open>
  The repository is a retrieval-augmented question-answering service written in Python:
  \<^verbatim>\<open>app/rag_chain.py\<close> (session memory and the query pipeline),
  \<^verbatim>\<open>app/vector_store.py\<close> (the gateway to the vector database) and
  \<^verbatim>\<open>app/document_loader.py\<close> (loading and chunking).

  A Python \<^verbatim>\<open>str\<close> is modelled as a \<^typ>\<open>string\<close>: one character of the model
  stands for one code point of the Python string, so that \<^const>\<open>length\<close> is Python's
  \<^verbatim>\<open>len\<close> and \<^const>\<open>take\<close> is a slice from the start.

  The embedding provider, the language model, the vector database and the text splitter
  are libraries and network services outside the repository. Each call the repository
  makes to them is a field of a record of outcomes (\<open>services\<close> and the like below): the
  call either raises (an \<open>exn\<close>) or returns a value. Exceptions are never caught in the
  modelled modules, so a raised exception is the result of the calling function.
\<close>

datatype exn = Exn string

text \<open>A LangChain \<^verbatim>\<open>Document\<close>: its text and its metadata dictionary.\<close>

record document =
  page_content :: string
  metadata :: "(string \<times> string) list"

text \<open>\<^verbatim>\<open>d.get(key, default)\<close> on a dictionary.\<close>

definition dict_get :: "('k \<times> 'v) list \<Rightarrow> 'k \<Rightarrow> 'v \<Rightarrow> 'v" where
  "dict_get d key dflt = (case map_of d key of None \<Rightarrow> dflt | Some v \<Rightarrow> v)"

text \<open>
  A turn of a history is the tuple \<^verbatim>\<open>("human", question)\<close> or
  \<^verbatim>\<open>("assistant", answer)\<close>; a prompt message is such a tuple too.
\<close>

type_synonym turn = "string \<times> string"

type_synonym message = "string \<times> string"

text \<open>One element of the \<^verbatim>\<open>sources\<close> list of a query result, and the result.\<close>

record source_entry =
  source :: string
  type :: string
  content_preview :: string

record query_result =
  answer :: string
  sources :: "source_entry list"

text \<open>
  The handles of the external clients, cached in module-level globals of
  \<^verbatim>\<open>vector_store.py\<close>.
\<close>

datatype openai_embeddings = OpenAIEmbeddings

datatype pinecone = Pinecone

datatype pinecone_vector_store = PineconeVectorStore

text \<open>
  The mutable module-level state of the process: \<^verbatim>\<open>_session_histories\<close> of
  \<^verbatim>\<open>rag_chain.py\<close> and the three lazily created singletons of
  \<^verbatim>\<open>vector_store.py\<close> (\<^verbatim>\<open>None\<close> until first use).
\<close>

record state =
  session_histories :: "string \<rightharpoonup> turn list"
  pinecone_client :: "pinecone option"
  vector_store :: "pinecone_vector_store option"
  embeddings :: "openai_embeddings option"

text \<open>
  The outcomes of the calls into the external libraries and services. For a constructor,
  \<open>None\<close> means it returned and \<open>Some e\<close> that it raised \<open>e\<close>.
  \<^item> \<open>openai_embeddings_new\<close>: \<^verbatim>\<open>OpenAIEmbeddings(model=..., openai_api_key=...)\<close>
  \<^item> \<open>pinecone_new\<close>: \<^verbatim>\<open>Pinecone(api_key=...)\<close>
  \<^item> \<open>pinecone_vector_store_new\<close>: \<^verbatim>\<open>PineconeVectorStore(index_name=..., ...)\<close>
  \<^item> \<open>chat_openai_new\<close>: \<^verbatim>\<open>ChatOpenAI(model="gpt-4o", temperature=0.7, ...)\<close>
  \<^item> \<open>pc_index\<close>: \<^verbatim>\<open>pc.Index(index_name)\<close>
  \<^item> \<open>vs_add_documents docs\<close>: \<^verbatim>\<open>vector_store.add_documents(docs)\<close>
  \<^item> \<open>vs_similarity_search q k\<close>: \<^verbatim>\<open>vector_store.similarity_search(q, k=k)\<close>
  \<^item> \<open>retriever_invoke k q\<close>:
    \<^verbatim>\<open>vector_store.as_retriever(search_kwargs={"k": k}).invoke(q)\<close>
  \<^item> \<open>chain_invoke messages context question\<close>: the chain
    \<^verbatim>\<open>ChatPromptTemplate.from_messages(messages) | llm | StrOutputParser()\<close> invoked
    on \<^verbatim>\<open>{"context": context, "question": question}\<close>
\<close>

record services =
  openai_embeddings_new :: "exn option"
  pinecone_new :: "exn option"
  pinecone_vector_store_new :: "exn option"
  chat_openai_new :: "exn option"
  pc_index :: "exn option"
  vs_add_documents :: "document list \<Rightarrow> exn + string list"
  vs_similarity_search :: "string \<Rightarrow> int \<Rightarrow> exn + document list"
  retriever_invoke :: "int \<Rightarrow> string \<Rightarrow> exn + document list"
  chain_invoke :: "message list \<Rightarrow> string \<Rightarrow> string \<Rightarrow> exn + string"

type_synonym retriever = "string \<Rightarrow> exn + document list"

section \<open>The vector store gateway (\<^verbatim>\<open>app/vector_store.py\<close>)\<close>

definition get_embeddings :: "services \<Rightarrow> state \<Rightarrow> (exn + openai_embeddings) \<times> state" where
  "get_embeddings sv st =
     (case embeddings st of
        None \<Rightarrow>
          (case openai_embeddings_new sv of
             Some e \<Rightarrow> (Inl e, st)
           | None \<Rightarrow> (Inr OpenAIEmbeddings, st\<lparr>embeddings := Some OpenAIEmbeddings\<rparr>))
      | Some em \<Rightarrow> (Inr em, st))"

definition init_pinecone :: "services \<Rightarrow> state \<Rightarrow> (exn + pinecone) \<times> state" where
  "init_pinecone sv st =
     (case pinecone_client st of
        None \<Rightarrow>
          (case pinecone_new sv of
             Some e \<Rightarrow> (Inl e, st)
           | None \<Rightarrow> (Inr Pinecone, st\<lparr>pinecone_client := Some Pinecone\<rparr>))
      | Some pc \<Rightarrow> (Inr pc, st))"

text \<open>
  \<^verbatim>\<open>get_vector_store\<close>: when the global is \<^verbatim>\<open>None\<close> it calls
  \<^verbatim>\<open>init_pinecone()\<close>, evaluates the argument \<^verbatim>\<open>get_embeddings()\<close>, constructs the
  store and caches it. A singleton created before a later step raises stays cached.
\<close>

definition get_vector_store :: "services \<Rightarrow> state \<Rightarrow> (exn + pinecone_vector_store) \<times> state" where
  "get_vector_store sv st =
     (case vector_store st of
        None \<Rightarrow>
          (case init_pinecone sv st of
             (Inl e, st1) \<Rightarrow> (Inl e, st1)
           | (Inr pc, st1) \<Rightarrow>
               (case get_embeddings sv st1 of
                  (Inl e, st2) \<Rightarrow> (Inl e, st2)
                | (Inr em, st2) \<Rightarrow>
                    (case pinecone_vector_store_new sv of
                       Some e \<Rightarrow> (Inl e, st2)
                     | None \<Rightarrow>
                         (Inr PineconeVectorStore,
                          st2\<lparr>vector_store := Some PineconeVectorStore\<rparr>))))
      | Some vs \<Rightarrow> (Inr vs, st))"

definition add_documents ::
  "services \<Rightarrow> document list \<Rightarrow> state \<Rightarrow> (exn + string list) \<times> state" where
  "add_documents sv documents st =
     (case get_vector_store sv st of
        (Inl e, st1) \<Rightarrow> (Inl e, st1)
      | (Inr vs, st1) \<Rightarrow> (vs_add_documents sv documents, st1))"

definition get_retriever :: "services \<Rightarrow> int \<Rightarrow> state \<Rightarrow> (exn + retriever) \<times> state" where
  "get_retriever sv k st =
     (case get_vector_store sv st of
        (Inl e, st1) \<Rightarrow> (Inl e, st1)
      | (Inr vs, st1) \<Rightarrow> (Inr (retriever_invoke sv k), st1))"


text \<open>
  What \<^verbatim>\<open>index.describe_index_stats()\<close> returns, as far as \<^verbatim>\<open>delete_all_records\<close>
  reads it: the dictionary under \<^verbatim>\<open>"namespaces"\<close> (namespace name to vector count) and
  the number under \<^verbatim>\<open>"total_vector_count"\<close>; either key may be missing
  (\<^verbatim>\<open>stats.get(key, default)\<close>).
\<close>

record index_stats =
  namespaces :: "(string \<times> int) list option"
  total_vector_count :: "int option"

text \<open>
  The index of the vector database behind \<^verbatim>\<open>pc.Index(index_name)\<close>, with contents of
  type \<open>'ix\<close>, and the two calls made on it: \<^verbatim>\<open>index.describe_index_stats()\<close> and
  \<^verbatim>\<open>index.delete(delete_all=True, namespace=ns)\<close>. A delete returns the contents after
  the call and the exception it raised, if any.
\<close>

record 'ix pinecone_index =
  describe_index_stats :: "'ix \<Rightarrow> exn + index_stats"
  delete_all :: "string \<Rightarrow> 'ix \<Rightarrow> exn option \<times> 'ix"

text \<open>The calls issued on the index, recorded in the order they are made.\<close>

datatype index_call = DescribeIndexStats | DeleteAll string

record reset_result =
  deleted :: bool
  previous_vector_count :: int

text \<open>
  The loop \<^verbatim>\<open>for namespace in stats.get("namespaces", {}).keys()\<close>; the test
  \<^verbatim>\<open>if namespace:\<close> skips the empty name.
\<close>

fun delete_namespaces ::
  "'ix pinecone_index \<Rightarrow> string list \<Rightarrow> 'ix \<Rightarrow> index_call list
    \<Rightarrow> exn option \<times> 'ix \<times> index_call list" where
  "delete_namespaces api [] ix log = (None, ix, log)"
| "delete_namespaces api (namespace # rest) ix log =
     (if namespace \<noteq> []
      then (case delete_all api namespace ix of
              (Some e, ix1) \<Rightarrow> (Some e, ix1, log @ [DeleteAll namespace])
            | (None, ix1) \<Rightarrow> delete_namespaces api rest ix1 (log @ [DeleteAll namespace]))
      else delete_namespaces api rest ix log)"

text \<open>
  \<^verbatim>\<open>delete_all_records()\<close> returns its result (or the exception raised), the module
  state, the contents of the index and the calls it has issued on the index.
\<close>

definition delete_all_records ::
  "services \<Rightarrow> 'ix pinecone_index \<Rightarrow> state \<Rightarrow> 'ix
    \<Rightarrow> (exn + reset_result) \<times> state \<times> 'ix \<times> index_call list" where
  "delete_all_records sv api st ix =
     (case init_pinecone sv st of
        (Inl e, st1) \<Rightarrow> (Inl e, st1, ix, [])
      | (Inr pc, st1) \<Rightarrow>
     (case pc_index sv of
        Some e \<Rightarrow> (Inl e, st1, ix, [])
      | None \<Rightarrow>
     (case describe_index_stats api ix of
        Inl e \<Rightarrow> (Inl e, st1, ix, [DescribeIndexStats])
      | Inr stats \<Rightarrow>
     (case delete_all api [] ix of
        (Some e, ix1) \<Rightarrow> (Inl e, st1, ix1, [DescribeIndexStats, DeleteAll []])
      | (None, ix1) \<Rightarrow>
     (case delete_namespaces api
             (map fst (case namespaces stats of None \<Rightarrow> [] | Some ns \<Rightarrow> ns))
             ix1 [DescribeIndexStats, DeleteAll []] of
        (Some e, ix2, log) \<Rightarrow> (Inl e, st1, ix2, log)
      | (None, ix2, log) \<Rightarrow>
          (Inr \<lparr>deleted = True,
                previous_vector_count =
                  (case total_vector_count stats of None \<Rightarrow> 0 | Some n \<Rightarrow> n)\<rparr>,
           st1, ix2, log))))))"

section \<open>Session memory and the query pipeline (\<^verbatim>\<open>app/rag_chain.py\<close>)\<close>

text \<open>
  \<^verbatim>\<open>get_history\<close> returns the list stored for the session, after storing a new empty
  list when the session is not in the dictionary.
\<close>

definition get_history :: "string \<Rightarrow> state \<Rightarrow> turn list \<times> state" where
  "get_history session_id st =
     (case session_histories st session_id of
        None \<Rightarrow> ([], st\<lparr>session_histories := (session_histories st)(session_id \<mapsto> [])\<rparr>)
      | Some h \<Rightarrow> (h, st))"

definition clear_memory :: "string \<Rightarrow> state \<Rightarrow> bool \<times> state" where
  "clear_memory session_id st =
     (case session_histories st session_id of
        Some h \<Rightarrow> (True, st\<lparr>session_histories := (session_histories st)(session_id := None)\<rparr>)
      | None \<Rightarrow> (False, st))"

text \<open>\<^verbatim>\<open>sep.join(parts)\<close>.\<close>

fun join :: "string \<Rightarrow> string list \<Rightarrow> string" where
  "join sep [] = []"
| "join sep [x] = x"
| "join sep (x # y # ys) = x @ sep @ join sep (y # ys)"

definition format_docs :: "document list \<Rightarrow> string" where
  "format_docs docs = join [CHR 0x0A, CHR 0x0A] (map page_content docs)"

definition system_prompt :: string where
  "system_prompt =
     ''You are a helpful AI assistant that answers questions based on the provided documents.''
     @ [CHR 0x0A] @
     ''Use the following context to answer the question. If you cannot find the answer in the context, ''
     @ [CHR 0x0A] @
     ''say so clearly but try to be helpful.''
     @ [CHR 0x0A, CHR 0x0A] @
     ''Context:''
     @ [CHR 0x0A] @
     ''{context}''"

text \<open>
  The expression
  \<^verbatim>\<open>doc.page_content[:200] + "..." if len(doc.page_content) > 200 else doc.page_content\<close>
  and the dictionary built from one retrieved document.
\<close>

definition preview :: "string \<Rightarrow> string" where
  "preview c = (if length c > 200 then take 200 c @ ''...'' else c)"

definition source_of :: "document \<Rightarrow> source_entry" where
  "source_of doc =
     \<lparr>source = dict_get (metadata doc) ''source'' ''Unknown'',
      type = dict_get (metadata doc) ''type'' ''Unknown'',
      content_preview = preview (page_content doc)\<rparr>"

text \<open>The slice \<^verbatim>\<open>xs[-n:]\<close> for \<open>n > 0\<close>: the last \<open>n\<close> elements, all of them when there are fewer.\<close>

definition last_slice :: "nat \<Rightarrow> 'a list \<Rightarrow> 'a list" where
  "last_slice n xs = drop (length xs - n) xs"

text \<open>
  \<^verbatim>\<open>query(question, session_id)\<close>. The steps and their order are the source's: the
  model client is constructed, the retriever is obtained with \<^verbatim>\<open>k=4\<close>, the history is
  fetched (and registered if absent), the documents are retrieved, the chain is invoked,
  the two turns are appended to the history list in place, and when the list then holds
  more than 20 turns the dictionary entry is replaced by the slice
  \<^verbatim>\<open>history[-20:]\<close>. The list returned by \<^verbatim>\<open>get_history\<close> is the object stored in
  the dictionary, so appending to it updates the entry of the session.
\<close>

definition query ::
  "services \<Rightarrow> string \<Rightarrow> string \<Rightarrow> state \<Rightarrow> (exn + query_result) \<times> state" where
  "query sv question session_id st =
     (case chat_openai_new sv of
        Some e \<Rightarrow> (Inl e, st)
      | None \<Rightarrow>
     (case get_retriever sv 4 st of
        (Inl e, st1) \<Rightarrow> (Inl e, st1)
      | (Inr retriever, st1) \<Rightarrow>
     (case get_history session_id st1 of
        (history, st2) \<Rightarrow>
     (case retriever question of
        Inl e \<Rightarrow> (Inl e, st2)
      | Inr docs \<Rightarrow>
     (let context = format_docs docs;
          messages = [(''system'', system_prompt)] @ history @ [(''human'', ''{question}'')]
      in
     (case chain_invoke sv messages context question of
        Inl e \<Rightarrow> (Inl e, st2)
      | Inr ans \<Rightarrow>
     (let history' = history @ [(''human'', question), (''assistant'', ans)];
          st3 = st2\<lparr>session_histories := (session_histories st2)(session_id \<mapsto> history')\<rparr>;
          st4 = (if length history' > 20
                 then st3\<lparr>session_histories :=
                        (session_histories st3)(session_id \<mapsto> last_slice 20 history')\<rparr>
                 else st3)
      in (Inr \<lparr>answer = ans, sources = map source_of docs\<rparr>, st4))))))))"

text \<open>The call \<^verbatim>\<open>query(question)\<close>: the parameter \<^verbatim>\<open>session_id\<close> takes its default.\<close>

definition query_default_session ::
  "services \<Rightarrow> string \<Rightarrow> state \<Rightarrow> (exn + query_result) \<times> state" where
  "query_default_session sv question st = query sv question ''default'' st"

section \<open>Chunking (\<^verbatim>\<open>app/document_loader.py\<close>)\<close>

text \<open>
  \<^verbatim>\<open>chunk_documents\<close> constructs a \<^verbatim>\<open>RecursiveCharacterTextSplitter\<close> of the library
  \<^verbatim>\<open>langchain_text_splitters\<close> and returns what its \<^verbatim>\<open>split_documents\<close> returns. The
  library is not part of the repository: its constructor and its splitting are the two
  fields of \<open>text_splitter\<close>, each given the arguments that \<^verbatim>\<open>chunk_documents\<close> passes
  (\<^verbatim>\<open>length_function\<close> is always \<^verbatim>\<open>len\<close>). The parameters \<^verbatim>\<open>chunk_size\<close> and
  \<^verbatim>\<open>chunk_overlap\<close> of the source are \<open>csize\<close> and \<open>coverlap\<close> here.
\<close>

record splitter_config =
  chunk_size :: int
  chunk_overlap :: int
  separators :: "string list"

record text_splitter =
  splitter_new :: "splitter_config \<Rightarrow> exn option"
  split_documents :: "splitter_config \<Rightarrow> document list \<Rightarrow> exn + document list"

definition chunk_documents ::
  "text_splitter \<Rightarrow> document list \<Rightarrow> int \<Rightarrow> int \<Rightarrow> exn + document list" where
  "chunk_documents lib documents csize coverlap =
     (let cfg = \<lparr>chunk_size = csize, chunk_overlap = coverlap,
                 separators = [[CHR 0x0A, CHR 0x0A], [CHR 0x0A], '' '', '''']\<rparr>
      in case splitter_new lib cfg of
           Some e \<Rightarrow> Inl e
         | None \<Rightarrow> split_documents lib cfg documents)"

text \<open>The call \<^verbatim>\<open>chunk_documents(documents)\<close> with both sizes at their defaults.\<close>

definition chunk_documents_default :: "text_splitter \<Rightarrow> document list \<Rightarrow> exn + document list" where
  "chunk_documents_default lib documents = chunk_documents lib documents 1000 200"

section \<open>Callers and test doubles\<close>

text \<open>The state of a freshly started process: no session, no client constructed.\<close>

definition initial_state :: state where
  "initial_state =
     \<lparr>session_histories = Map.empty, pinecone_client = None, vector_store = None,
      embeddings = None\<rparr>"

text \<open>
  A caller issuing queries one after the other on one session; each call has its own
  outcomes of the external services.
\<close>

fun query_seq ::
  "string \<Rightarrow> (services \<times> string) list \<Rightarrow> state \<Rightarrow> (exn + query_result) list \<times> state" where
  "query_seq session_id [] st = ([], st)"
| "query_seq session_id ((sv, question) # rest) st =
     (case query sv question session_id st of
        (r, st1) \<Rightarrow>
          (case query_seq session_id rest st1 of (rs, st2) \<Rightarrow> (r # rs, st2)))"

text \<open>The turns that a list of (question, answer) pairs contributes, in order.\<close>

fun exchanges :: "(string \<times> string) list \<Rightarrow> turn list" where
  "exchanges [] = []"
| "exchanges ((q, a) # rest) = (''human'', q) # (''assistant'', a) # exchanges rest"

text \<open>
  A caller applying the three session operations of \<^verbatim>\<open>rag_chain.py\<close> to one session.
\<close>

datatype session_op = Query services string | GetHistory | ClearMemory

datatype op_result =
  QueryReturned "exn + query_result" | HistoryReturned "turn list" | ClearReturned bool

fun do_op :: "string \<Rightarrow> session_op \<Rightarrow> state \<Rightarrow> op_result \<times> state" where
  "do_op session_id (Query sv question) st =
     (case query sv question session_id st of (r, st1) \<Rightarrow> (QueryReturned r, st1))"
| "do_op session_id GetHistory st =
     (case get_history session_id st of (h, st1) \<Rightarrow> (HistoryReturned h, st1))"
| "do_op session_id ClearMemory st =
     (case clear_memory session_id st of (b, st1) \<Rightarrow> (ClearReturned b, st1))"

fun do_ops :: "string \<Rightarrow> session_op list \<Rightarrow> state \<Rightarrow> op_result list \<times> state" where
  "do_ops session_id [] st = ([], st)"
| "do_ops session_id (x # xs) st =
     (case do_op session_id x st of
        (r, st1) \<Rightarrow> (case do_ops session_id xs st1 of (rs, st2) \<Rightarrow> (r # rs, st2)))"

text \<open>
  Modelled from the spec: the similarity search of the vector store is performed by the
  store's client library and the database, and no code of them is in the repository. The
  spec gives the search this contract: \<open>k\<close> must be at least 1, and the search fails
  with \<^verbatim>\<open>InvalidArgument\<close> otherwise; the result is ordered by descending similarity
  to the query and holds fewer than \<open>k\<close> units when the index holds fewer. Here
  \<open>ranked q\<close> is the list of all records of the index in descending similarity to \<open>q\<close>.
\<close>

definition spec_similarity_search ::
  "(string \<Rightarrow> document list) \<Rightarrow> string \<Rightarrow> int \<Rightarrow> exn + document list" where
  "spec_similarity_search ranked q k =
     (if k < 1 then Inl (Exn ''InvalidArgument'') else Inr (take (nat k) (ranked q)))"

text \<open>
  Test doubles of the external services: every constructor returns, the index holds the
  given documents in this order for every query and is searched as
  \<open>spec_similarity_search\<close> says, and generation echoes the question.
\<close>

definition mock_services :: "document list \<Rightarrow> services" where
  "mock_services index =
     \<lparr>openai_embeddings_new = None, pinecone_new = None, pinecone_vector_store_new = None,
      chat_openai_new = None, pc_index = None,
      vs_add_documents = (\<lambda>docs. Inr (map (\<lambda>d. ''id'') docs)),
      vs_similarity_search = spec_similarity_search (\<lambda>q. index),
      retriever_invoke = (\<lambda>k q. spec_similarity_search (\<lambda>q. index) q k),
      chain_invoke = (\<lambda>messages context question. Inr question)\<rparr>"

definition paris_doc :: document where
  "paris_doc =
     \<lparr>page_content = ''Paris is the capital of France.'',
      metadata = [(''source'', ''geo.pdf''), (''type'', ''pdf'')]\<rparr>"

definition eleven_questions :: "string list" where
  "eleven_questions =
     [''q1'', ''q2'', ''q3'', ''q4'', ''q5'', ''q6'', ''q7'', ''q8'', ''q9'', ''q10'', ''q11'']"

text \<open>A state in which the session \<^verbatim>\<open>s1\<close> holds one exchange.\<close>

definition greeted_state :: state where
  "greeted_state =
     initial_state\<lparr>session_histories :=
       [''s1'' \<mapsto> [(''human'', ''hi''), (''assistant'', ''hello'')]]\<rparr>"

text \<open>A document of 250 characters with no metadata.\<close>

definition long_doc :: document where
  "long_doc = \<lparr>page_content = replicate 250 (CHR ''x''), metadata = []\<rparr>"

text \<open>
  The state in which the entry of one session is replaced (\<open>None\<close>: the session is
  absent) and everything else is as in \<open>st\<close>.
\<close>

definition set_session :: "string \<Rightarrow> turn list option \<Rightarrow> state \<Rightarrow> state" where
  "set_session sid h st = st\<lparr>session_histories := (session_histories st)(sid := h)\<rparr>"

text \<open>
  Modelled from the spec: the vector database itself is an external service, and no code
  of it is in the repository. The spec describes an index divided into namespaces
  (partitions), whose statistics give the total record count, and in which a delete-all
  call against one namespace removes the records of that namespace only. The reference
  index below holds the number of records of each namespace; its statistics list every
  namespace it holds and the sum of the counts, and both calls always return.
\<close>

type_synonym mem_index = "(string \<times> nat) list"

definition mem_index_api :: "mem_index pinecone_index" where
  "mem_index_api =
     \<lparr>describe_index_stats =
        (\<lambda>ix. Inr \<lparr>namespaces = Some (map (\<lambda>(n, c). (n, int c)) ix),
                    total_vector_count = Some (int (sum_list (map snd ix)))\<rparr>),
      delete_all = (\<lambda>namespace ix. (None, filter (\<lambda>(n, c). n \<noteq> namespace) ix))\<rparr>"

text \<open>
  The text splitter library is not part of the repository. The constructor of its
  splitter checks the configuration: it raises a \<^verbatim>\<open>ValueError\<close> when the chunk overlap
  is larger than the chunk size. (Some versions of the library also reject a chunk size
  below 1 and a negative overlap; the properties below are stated so that they do not
  depend on this.) \<open>langchain_text_splitter split\<close> is the library with this constructor
  and with \<open>split\<close> as its \<^verbatim>\<open>split_documents\<close>.
\<close>

definition text_splitter_init :: "splitter_config \<Rightarrow> exn option" where
  "text_splitter_init cfg =
     (if chunk_overlap cfg > chunk_size cfg
      then Some (Exn ''Got a larger chunk overlap than chunk size, should be smaller.'')
      else None)"

definition langchain_text_splitter ::
  "(splitter_config \<Rightarrow> document list \<Rightarrow> exn + document list) \<Rightarrow> text_splitter" where
  "langchain_text_splitter split = \<lparr>splitter_new = text_splitter_init, split_documents = split\<rparr>"

text \<open>
  A test double of the splitting itself: every document is returned as one chunk, as it
  is for a document that is shorter than the chunk size.
\<close>

definition whole_documents :: "splitter_config \<Rightarrow> document list \<Rightarrow> exn + document list" where
  "whole_documents cfg docs = Inr docs"

section \<open>Properties of the vector store gateway\<close>

text \<open>The gateway functions construct and cache clients; they never touch the sessions.\<close>

lemma get_embeddings_sessions:
  "session_histories (snd (get_embeddings sv st)) = session_histories st"
  by (simp add: get_embeddings_def split: option.splits)

lemma init_pinecone_sessions:
  "session_histories (snd (init_pinecone sv st)) = session_histories st"
  by (simp add: init_pinecone_def split: option.splits)

lemma get_vector_store_sessions:
  "session_histories (snd (get_vector_store sv st)) = session_histories st"
proof (cases "vector_store st")
  case None
  obtain r1 st1 where p: "init_pinecone sv st = (r1, st1)" by (cases "init_pinecone sv st")
  obtain r2 st2 where e: "get_embeddings sv st1 = (r2, st2)" by (cases "get_embeddings sv st1")
  from p have s1: "session_histories st1 = session_histories st"
    using init_pinecone_sessions [of sv st] by simp
  from e have s2: "session_histories st2 = session_histories st1"
    using get_embeddings_sessions [of sv st1] by simp
  show ?thesis
    using None p e s1 s2
    by (simp add: get_vector_store_def split: sum.splits option.splits)
next
  case (Some vs)
  then show ?thesis by (simp add: get_vector_store_def)
qed

lemma get_retriever_sessions:
  "session_histories (snd (get_retriever sv k st)) = session_histories st"
  using get_vector_store_sessions [of sv st]
  by (cases "get_vector_store sv st") (simp add: get_retriever_def split: sum.splits)

lemma get_retriever_Inr:
  "fst (get_retriever sv k st) = Inr r \<Longrightarrow> r = retriever_invoke sv k"
  by (cases "get_vector_store sv st") (simp add: get_retriever_def split: sum.splits)

lemma delete_namespaces_log:
  "delete_namespaces api nss ix log = (None, ix', log') \<Longrightarrow>
   log' = log @ map DeleteAll (filter (\<lambda>ns. ns \<noteq> []) nss)"
proof (induction nss arbitrary: ix log)
  case Nil
  then show ?case by simp
next
  case (Cons ns rest)
  show ?case
  proof (cases "ns = []")
    case True
    with Cons show ?thesis by simp
  next
    case False
    obtain r ix1 where d: "delete_all api ns ix = (r, ix1)" by (cases "delete_all api ns ix")
    with Cons.prems False have r: "r = None"
      by (cases r) auto
    with Cons.prems False d
    have "delete_namespaces api rest ix1 (log @ [DeleteAll ns]) = (None, ix', log')" by simp
    from Cons.IH [OF this] False show ?thesis by simp
  qed
qed

lemma delete_namespaces_mem:
  "delete_namespaces mem_index_api nss ix log =
     (None, filter (\<lambda>(n, c). n \<notin> set (filter (\<lambda>ns. ns \<noteq> []) nss)) ix,
      log @ map DeleteAll (filter (\<lambda>ns. ns \<noteq> []) nss))"
proof (induction nss arbitrary: ix log)
  case Nil
  then show ?case by simp
next
  case (Cons ns rest)
  have f: "filter (\<lambda>(n, c). n \<notin> set (filter (\<lambda>ns. ns \<noteq> []) rest)) (filter (\<lambda>(n, c). n \<noteq> ns) ix)
         = filter (\<lambda>(n, c). n \<noteq> ns \<and> n \<notin> set (filter (\<lambda>ns. ns \<noteq> []) rest)) ix"
    by (induction ix) auto
  show ?case
    using Cons.IH f by (auto simp: mem_index_api_def intro: filter_cong)
qed

lemma init_pinecone_Inr_cached:
  "init_pinecone sv st = (Inr pc, st1) \<Longrightarrow> init_pinecone sv' st1 = (Inr Pinecone, st1)"
  by (cases pc) (auto simp: init_pinecone_def split: option.splits)

lemma delete_all_records_Inr:
  assumes "delete_all_records sv api st ix = (Inr r, st', ix', log)"
  shows "\<exists>stats pc ix1. init_pinecone sv st = (Inr pc, st') \<and> pc_index sv = None
       \<and> describe_index_stats api ix = Inr stats
       \<and> delete_all api [] ix = (None, ix1)
       \<and> delete_namespaces api
             (map fst (case namespaces stats of None \<Rightarrow> [] | Some ns \<Rightarrow> ns))
             ix1 [DescribeIndexStats, DeleteAll []] = (None, ix', log)
       \<and> r = \<lparr>deleted = True,
                previous_vector_count =
                  (case total_vector_count stats of None \<Rightarrow> 0 | Some n \<Rightarrow> n)\<rparr>"
  using assms
  by (auto simp: delete_all_records_def split: prod.splits sum.splits option.splits)

section \<open>Properties of the query pipeline\<close>

text \<open>
  What a returning call of \<open>query\<close> has done, and what a raising call has left behind.
\<close>

lemma query_Inr:
  assumes "fst (query sv q sid st) = Inr r"
  shows "\<exists>docs ans. chat_openai_new sv = None
      \<and> fst (get_retriever sv 4 st) = Inr (retriever_invoke sv 4)
      \<and> retriever_invoke sv 4 q = Inr docs
      \<and> chain_invoke sv
           ([(''system'', system_prompt)] @ fst (get_history sid st) @ [(''human'', ''{question}'')])
           (format_docs docs) q = Inr ans
      \<and> r = \<lparr>answer = ans, sources = map source_of docs\<rparr>
      \<and> session_histories (snd (query sv q sid st)) =
          (session_histories st)
            (sid \<mapsto> last_slice 20 (fst (get_history sid st) @ [(''human'', q), (''assistant'', ans)]))"
proof -
  obtain rr st1 where g: "get_retriever sv 4 st = (rr, st1)" by (cases "get_retriever sv 4 st")
  have s1: "session_histories st1 = session_histories st"
    using get_retriever_sessions [of sv 4 st] g by simp
  show ?thesis
    using assms g s1 get_retriever_Inr [of sv 4 st]
    by (auto simp: query_def get_history_def Let_def last_slice_def
        split: option.splits sum.splits if_splits)
qed

lemma query_Inl:
  assumes "fst (query sv q sid st) = Inl e"
  shows "session_histories (snd (query sv q sid st)) = session_histories st
       \<or> (session_histories st sid = None
          \<and> session_histories (snd (query sv q sid st)) = (session_histories st)(sid \<mapsto> []))"
proof -
  obtain rr st1 where g: "get_retriever sv 4 st = (rr, st1)" by (cases "get_retriever sv 4 st")
  have s1: "session_histories st1 = session_histories st"
    using get_retriever_sessions [of sv 4 st] g by simp
  show ?thesis
    using assms g s1
    by (auto simp: query_def get_history_def Let_def
        split: option.splits sum.splits if_splits)
qed

lemma query_Inl_late:
  assumes "fst (query sv q sid st) = Inl e" "chat_openai_new sv = None"
    "fst (get_retriever sv 4 st) = Inr rt"
  shows "session_histories (snd (query sv q sid st)) =
           (session_histories st)(sid \<mapsto> fst (get_history sid st))"
proof -
  obtain rr st1 where g: "get_retriever sv 4 st = (rr, st1)" by (cases "get_retriever sv 4 st")
  have s1: "session_histories st1 = session_histories st"
    using get_retriever_sessions [of sv 4 st] g by simp
  show ?thesis
    using assms g s1
    by (auto simp: query_def get_history_def Let_def
        split: option.splits sum.splits if_splits)
qed

lemma query_Inl_origin:
  assumes "fst (query sv q sid st) = Inl e"
  shows "chat_openai_new sv = Some e
       \<or> fst (get_retriever sv 4 st) = Inl e
       \<or> retriever_invoke sv 4 q = Inl e
       \<or> (\<exists>docs. retriever_invoke sv 4 q = Inr docs
            \<and> chain_invoke sv
                 ([(''system'', system_prompt)] @ fst (get_history sid st)
                    @ [(''human'', ''{question}'')])
                 (format_docs docs) q = Inl e)"
proof -
  obtain rr st1 where g: "get_retriever sv 4 st = (rr, st1)" by (cases "get_retriever sv 4 st")
  have s1: "session_histories st1 = session_histories st"
    using get_retriever_sessions [of sv 4 st] g by simp
  show ?thesis
    using assms g s1 get_retriever_Inr [of sv 4 st]
    by (auto simp: query_def get_history_def Let_def
        split: option.splits sum.splits if_splits)
qed

lemma query_returns:
  assumes llm: "chat_openai_new sv = None"
    and retr: "fst (get_retriever sv 4 st) = Inr rt"
    and docs: "retriever_invoke sv 4 question = Inr docs"
    and gen: "chain_invoke sv
           ([(''system'', system_prompt)] @ fst (get_history session_id st)
              @ [(''human'', ''{question}'')])
           (format_docs docs) question = Inr ans"
  shows "fst (query sv question session_id st) = Inr \<lparr>answer = ans, sources = map source_of docs\<rparr>"
proof -
  obtain rr st1 where g: "get_retriever sv 4 st = (rr, st1)" by (cases "get_retriever sv 4 st")
  have s1: "session_histories st1 = session_histories st"
    using get_retriever_sessions [of sv 4 st] g by simp
  have rr: "rr = Inr (retriever_invoke sv 4)"
    using retr g get_retriever_Inr [of sv 4 st rt] by simp
  show ?thesis
    using llm g s1 rr docs gen
    by (auto simp: query_def get_history_def Let_def split: option.splits)
qed

lemma last_slice_append_absorb:
  "last_slice n (last_slice n xs @ ys) = last_slice n (xs @ ys)"
proof (cases "length xs \<le> n")
  case True
  then show ?thesis by (simp add: last_slice_def)
next
  case False
  then have "length xs - n + n = length xs" by simp
  moreover have "length xs + length ys - length xs + (length xs - n) = length xs + length ys - n"
    using False by simp
  ultimately show ?thesis by (simp add: last_slice_def)
qed

lemma length_last_slice: "length (last_slice n xs) = min n (length xs)"
  by (auto simp: last_slice_def)

lemma length_exchanges: "length (exchanges ps) = 2 * length ps"
  by (induction ps rule: exchanges.induct) auto

lemma exchanges_append: "exchanges (ps @ qs) = exchanges ps @ exchanges qs"
  by (induction ps rule: exchanges.induct) auto

lemma get_history_of_Some: "session_histories st sid = Some h \<Longrightarrow> fst (get_history sid st) = h"
  by (simp add: get_history_def)

lemma query_seq_history:
  "query_seq sid calls st = (map Inr results, st') \<Longrightarrow> calls \<noteq> [] \<Longrightarrow>
   session_histories st' sid =
     Some (last_slice 20 (fst (get_history sid st)
             @ exchanges (zip (map snd calls) (map answer results))))"
proof (induction calls arbitrary: st results)
  case Nil
  then show ?case by simp
next
  case (Cons c rest)
  obtain sv q where c: "c = (sv, q)" by (cases c)
  obtain r0 st1 where q1: "query sv q sid st = (r0, st1)" by (cases "query sv q sid st")
  obtain rs st2 where q2: "query_seq sid rest st1 = (rs, st2)" by (cases "query_seq sid rest st1")
  from Cons.prems(1) c q1 q2 have eq: "r0 # rs = map Inr results" and st2: "st2 = st'"
    by simp_all
  from eq obtain r results' where res: "results = r # results'" "r0 = Inr r" "rs = map Inr results'"
    by (cases results) auto
  have "fst (query sv q sid st) = Inr r" using q1 res by simp
  from query_Inr [OF this] q1 res
  have h1: "session_histories st1 sid =
      Some (last_slice 20 (fst (get_history sid st) @ [(''human'', q), (''assistant'', answer r)]))"
    by auto
  show ?case
  proof (cases "rest = []")
    case True
    with q2 res have "st' = st1" "results' = []" using st2 by auto
    with h1 c res True show ?thesis by simp
  next
    case False
    from q2 res st2 have "query_seq sid rest st1 = (map Inr results', st')" by simp
    from Cons.IH [OF this False]
    have "session_histories st' sid =
        Some (last_slice 20 (fst (get_history sid st1)
               @ exchanges (zip (map snd rest) (map answer results'))))" .
    then show ?thesis
      using get_history_of_Some [OF h1] c res
      by (simp add: last_slice_append_absorb)
  qed
qed

lemma length_query_seq: "length (fst (query_seq sid calls st)) = length calls"
proof (induction calls arbitrary: st)
  case Nil
  then show ?case by simp
next
  case (Cons c rest)
  obtain sv q where c: "c = (sv, q)" by (cases c)
  obtain r0 st1 where q1: "query sv q sid st = (r0, st1)" by (cases "query sv q sid st")
  obtain rs st2 where q2: "query_seq sid rest st1 = (rs, st2)" by (cases "query_seq sid rest st1")
  from Cons.IH [of st1] q2 have "length rs = length rest" by simp
  with c q1 q2 show ?case by simp
qed

lemma take_last_slice: "take (length xs - n) xs @ last_slice n xs = xs"
  by (simp add: last_slice_def)

text \<open>The definitions unfolded to run the pipeline on concrete inputs.\<close>

lemmas eval_defs = query_def get_retriever_def get_vector_store_def
      init_pinecone_def get_embeddings_def get_history_def mock_services_def initial_state_def
      spec_similarity_search_def
      last_slice_def Let_def

lemma mock_eleven_queries:
  "fst (query_seq ''s1'' (map (\<lambda>q. (mock_services [paris_doc], q)) eleven_questions) initial_state) =
   map Inr (map (\<lambda>q. \<lparr>answer = q, sources = [source_of paris_doc]\<rparr>) eleven_questions)"
  by (simp add: eleven_questions_def query_def get_retriever_def get_vector_store_def
      init_pinecone_def get_embeddings_def get_history_def mock_services_def initial_state_def
      spec_similarity_search_def
      last_slice_def Let_def)

section \<open>Bounded session history\<close>

text \<open>
  Claim C1. Let queries be issued one after the other on one session and let every one of
  them return. Each returning call has appended the turn \<^verbatim>\<open>("human", question)\<close>
  followed by the turn \<^verbatim>\<open>("assistant", answer)\<close>, and the stored history is the
  previous history followed by the new turns with only its oldest turns cut off at the
  front (\<open>evicted\<close>): it keeps the newest turns and holds at most 20 of them. Starting
  from an empty history, after 11 returning queries the history holds exactly 20 turns,
  those of the queries 2 to 11, and the two turns of the first query are the evicted ones.
  A single query is the case of a one-element list of calls.
\<close>

theorem query_appends_and_trims:
  assumes run: "query_seq session_id calls st = (map Inr results, st')"
    and ne: "calls \<noteq> []"
  shows "\<exists>h evicted.
      session_histories st' session_id = Some h
    \<and> fst (get_history session_id st) @ exchanges (zip (map snd calls) (map answer results))
        = evicted @ h
    \<and> length h = min 20 (length (fst (get_history session_id st)) + 2 * length calls)
    \<and> (length calls = 11 \<and> fst (get_history session_id st) = [] \<longrightarrow>
         length h = 20
       \<and> h = exchanges (tl (zip (map snd calls) (map answer results)))
       \<and> evicted = exchanges [hd (zip (map snd calls) (map answer results))])"
proof -
  let ?old = "fst (get_history session_id st)"
  let ?ps = "zip (map snd calls) (map answer results)"
  let ?all = "?old @ exchanges ?ps"
  let ?h = "last_slice 20 ?all"
  let ?ev = "take (length ?all - 20) ?all"
  have len: "length results = length calls"
    using length_query_seq [of session_id calls st] run by simp
  then have lps: "length ?ps = length calls" by simp
  have h: "session_histories st' session_id = Some ?h"
    using query_seq_history [OF run ne] .
  have split: "?all = ?ev @ ?h" using take_last_slice [of ?all 20] by simp
  have lh: "length ?h = min 20 (length ?old + 2 * length calls)"
    using lps by (simp add: length_last_slice length_exchanges)
  have eleven: "length ?h = 20 \<and> ?h = exchanges (tl ?ps) \<and> ?ev = exchanges [hd ?ps]"
    if l: "length calls = 11" and e: "?old = []"
  proof -
    from lps l obtain p ps' where ps: "?ps = p # ps'" and lps': "length ps' = 10"
      by (cases ?ps) auto
    obtain q a where p: "p = (q, a)" by (cases p)
    have "exchanges ?ps = exchanges [p] @ exchanges ps'"
      using ps p by simp
    moreover have "length (exchanges ps') = 20" using lps' by (simp add: length_exchanges)
    ultimately show ?thesis
      using e ps p by (simp add: last_slice_def)
  qed
  show ?thesis
    using h split lh eleven by blast
qed

theorem query_appends_and_trims_witness:
  "session_histories
     (snd (query_seq ''s1'' (map (\<lambda>q. (mock_services [paris_doc], q)) eleven_questions)
            initial_state)) ''s1''
   = Some (exchanges (map (\<lambda>q. (q, q)) (tl eleven_questions)))
   \<and> length (exchanges (map (\<lambda>q. (q, q)) (tl eleven_questions))) = 20"
proof -
  let ?calls = "map (\<lambda>q. (mock_services [paris_doc], q)) eleven_questions"
  let ?results = "map (\<lambda>q. \<lparr>answer = q, sources = [source_of paris_doc]\<rparr>) eleven_questions"
  let ?st' = "snd (query_seq ''s1'' ?calls initial_state)"
  have run: "query_seq ''s1'' ?calls initial_state = (map Inr ?results, ?st')"
    using mock_eleven_queries by (simp add: prod_eq_iff)
  have ne: "?calls \<noteq> []" by (simp add: eleven_questions_def)
  have l: "length ?calls = 11" by (simp add: eleven_questions_def)
  have e: "fst (get_history ''s1'' initial_state) = []"
    by (simp add: get_history_def initial_state_def)
  have z: "zip (map snd ?calls) (map answer ?results) = map (\<lambda>q. (q, q)) eleven_questions"
    by (simp add: eleven_questions_def)
  from query_appends_and_trims [OF run ne] l e z
  show ?thesis by (auto simp: map_tl)
qed

section \<open>Failed queries\<close>

text \<open>
  Claim C2. When \<open>query\<close> raises, at whichever step (constructing the model client,
  obtaining the retriever, retrieval or generation), the turns of the session's history
  are the ones it had before the call, and no other session's entry has changed: the
  question and the answer are appended only after generation has returned.
\<close>

theorem failed_query_keeps_turns:
  assumes "fst (query sv question session_id st) = Inl e"
  shows "fst (get_history session_id (snd (query sv question session_id st)))
           = fst (get_history session_id st)
       \<and> (\<forall>sid. sid \<noteq> session_id \<longrightarrow>
            session_histories (snd (query sv question session_id st)) sid
              = session_histories st sid)"
  using query_Inl [OF assms]
  by (auto simp: get_history_def split: option.splits)

theorem failed_query_keeps_turns_witness:
  "fst (query ((mock_services [paris_doc])\<lparr>retriever_invoke := \<lambda>k q. Inl (Exn ''index down'')\<rparr>)
          ''why?'' ''s1'' greeted_state) = Inl (Exn ''index down'')
   \<and> fst (get_history ''s1''
        (snd (query ((mock_services [paris_doc])\<lparr>retriever_invoke := \<lambda>k q. Inl (Exn ''index down'')\<rparr>)
               ''why?'' ''s1'' greeted_state)))
       = [(''human'', ''hi''), (''assistant'', ''hello'')]
   \<and> fst (query ((mock_services [paris_doc])\<lparr>chain_invoke := \<lambda>m c q. Inl (Exn ''model down'')\<rparr>)
          ''why?'' ''s1'' greeted_state) = Inl (Exn ''model down'')
   \<and> fst (get_history ''s1''
        (snd (query ((mock_services [paris_doc])\<lparr>chain_invoke := \<lambda>m c q. Inl (Exn ''model down'')\<rparr>)
               ''why?'' ''s1'' greeted_state)))
       = [(''human'', ''hi''), (''assistant'', ''hello'')]"
proof -
  let ?r = "(mock_services [paris_doc])\<lparr>retriever_invoke := \<lambda>k q. Inl (Exn ''index down'')\<rparr>"
  let ?g = "(mock_services [paris_doc])\<lparr>chain_invoke := \<lambda>m c q. Inl (Exn ''model down'')\<rparr>"
  have r: "fst (query ?r ''why?'' ''s1'' greeted_state) = Inl (Exn ''index down'')"
    by (simp add: eval_defs greeted_state_def)
  have g: "fst (query ?g ''why?'' ''s1'' greeted_state) = Inl (Exn ''model down'')"
    by (simp add: eval_defs greeted_state_def)
  have h: "fst (get_history ''s1'' greeted_state) = [(''human'', ''hi''), (''assistant'', ''hello'')]"
    by (simp add: get_history_def greeted_state_def initial_state_def)
  from failed_query_keeps_turns [OF r] failed_query_keeps_turns [OF g] r g h
  show ?thesis by simp
qed

text \<open>
  Claim C10. For a session that is not yet in the session map, a call of \<open>query\<close> that
  fails at retrieval or at generation raises, and still leaves the map changed: the
  session is registered with an empty history before retrieval runs, so that a following
  \<open>clear_memory\<close> of that session returns \<open>True\<close> although no turn was recorded.
\<close>

theorem failed_query_registers_session:
  assumes absent: "session_histories st session_id = None"
    and llm: "chat_openai_new sv = None"
    and retr: "fst (get_retriever sv 4 st) = Inr rt"
    and fails: "retriever_invoke sv 4 question = Inl e
        \<or> (\<exists>docs. retriever_invoke sv 4 question = Inr docs
              \<and> chain_invoke sv [(''system'', system_prompt), (''human'', ''{question}'')]
                   (format_docs docs) question = Inl e)"
  shows "fst (query sv question session_id st) = Inl e
       \<and> session_histories (snd (query sv question session_id st))
           = (session_histories st)(session_id \<mapsto> [])
       \<and> fst (clear_memory session_id (snd (query sv question session_id st))) = True"
proof -
  obtain rr st1 where g: "get_retriever sv 4 st = (rr, st1)" by (cases "get_retriever sv 4 st")
  have s1: "session_histories st1 = session_histories st"
    using get_retriever_sessions [of sv 4 st] g by simp
  have rr: "rr = Inr (retriever_invoke sv 4)"
    using retr g get_retriever_Inr [of sv 4 st rt] by simp
  have res: "fst (query sv question session_id st) = Inl e"
    using fails absent llm g s1 rr
    by (auto simp: query_def get_history_def Let_def)
  have "session_histories (snd (query sv question session_id st))
           = (session_histories st)(session_id \<mapsto> [])"
    using query_Inl_late [OF res llm retr] absent by (simp add: get_history_def)
  then show ?thesis using res by (simp add: clear_memory_def)
qed

theorem failed_query_registers_session_witness:
  "fst (query ((mock_services [paris_doc])\<lparr>retriever_invoke := \<lambda>k q. Inl (Exn ''index down'')\<rparr>)
          ''why?'' ''s9'' initial_state) = Inl (Exn ''index down'')
   \<and> session_histories initial_state ''s9'' = None
   \<and> session_histories
        (snd (query ((mock_services [paris_doc])\<lparr>retriever_invoke := \<lambda>k q. Inl (Exn ''index down'')\<rparr>)
               ''why?'' ''s9'' initial_state)) ''s9'' = Some []
   \<and> fst (clear_memory ''s9''
        (snd (query ((mock_services [paris_doc])\<lparr>retriever_invoke := \<lambda>k q. Inl (Exn ''index down'')\<rparr>)
               ''why?'' ''s9'' initial_state))) = True"
proof -
  let ?r = "(mock_services [paris_doc])\<lparr>retriever_invoke := \<lambda>k q. Inl (Exn ''index down'')\<rparr>"
  have a: "session_histories initial_state ''s9'' = None" by (simp add: initial_state_def)
  have l: "chat_openai_new ?r = None" by (simp add: mock_services_def spec_similarity_search_def)
  have g: "fst (get_retriever ?r 4 initial_state) = Inr (retriever_invoke ?r 4)"
    by (simp add: eval_defs)
  have f: "retriever_invoke ?r 4 ''why?'' = Inl (Exn ''index down'')
        \<or> (\<exists>docs. retriever_invoke ?r 4 ''why?'' = Inr docs
              \<and> chain_invoke ?r [(''system'', system_prompt), (''human'', ''{question}'')]
                   (format_docs docs) ''why?'' = Inl (Exn ''index down''))"
    by simp
  from failed_query_registers_session [OF a l g f] a
  show ?thesis by simp
qed

section \<open>The result of a query\<close>

text \<open>
  Claim C7. A returning call of \<open>query\<close> emits one \<open>sources\<close> entry per retrieved
  document, in retrieval order; the \<open>content_preview\<close> of an entry is the whole content when
  the content has at most 200 characters, and otherwise its first 200 characters followed
  by the marker \<^verbatim>\<open>...\<close>.
\<close>

theorem query_content_preview:
  assumes "fst (query sv question session_id st) = Inr result"
  shows "\<exists>docs. retriever_invoke sv 4 question = Inr docs
      \<and> length (sources result) = length docs
      \<and> (\<forall>i<length docs.
            content_preview (sources result ! i) =
              (if length (page_content (docs ! i)) \<le> 200 then page_content (docs ! i)
               else take 200 (page_content (docs ! i)) @ ''...''))"
proof -
  from query_Inr [OF assms] obtain docs ans where
    d: "retriever_invoke sv 4 question = Inr docs"
    and r: "result = \<lparr>answer = ans, sources = map source_of docs\<rparr>"
    by blast
  have "content_preview (sources result ! i) =
          (if length (page_content (docs ! i)) \<le> 200 then page_content (docs ! i)
           else take 200 (page_content (docs ! i)) @ ''...'')" if "i < length docs" for i
    using that r by (simp add: source_of_def preview_def)
  with d r show ?thesis by auto
qed

theorem query_content_preview_witness:
  "content_preview
     (sources (projr (fst (query (mock_services [paris_doc, long_doc])
        ''What is the capital of France?'' ''s1'' initial_state))) ! 0)
     = ''Paris is the capital of France.''
   \<and> content_preview
     (sources (projr (fst (query (mock_services [paris_doc, long_doc])
        ''What is the capital of France?'' ''s1'' initial_state))) ! 1)
     = replicate 200 (CHR ''x'') @ ''...''"
proof -
  let ?sv = "mock_services [paris_doc, long_doc]"
  let ?q = "''What is the capital of France?''"
  let ?res = "\<lparr>answer = ?q, sources = [source_of paris_doc, source_of long_doc]\<rparr>"
  have run: "fst (query ?sv ?q ''s1'' initial_state) = Inr ?res"
    by (simp add: eval_defs)
  have docs: "retriever_invoke ?sv 4 ?q = Inr [paris_doc, long_doc]"
    by (simp add: mock_services_def spec_similarity_search_def)
  from query_content_preview [OF run] docs
  have all: "\<forall>i<2. content_preview (sources ?res ! i) =
          (if length (page_content ([paris_doc, long_doc] ! i)) \<le> 200
           then page_content ([paris_doc, long_doc] ! i)
           else take 200 (page_content ([paris_doc, long_doc] ! i)) @ ''...'')"
    by auto
  have p0: "content_preview (sources ?res ! 0) = ''Paris is the capital of France.''"
    using all [rule_format, of 0] by (simp add: paris_doc_def)
  have p1: "content_preview (sources ?res ! 1) = replicate 200 (CHR ''x'') @ ''...''"
    using all [rule_format, of 1] by (simp add: long_doc_def)
  from run p0 p1 show ?thesis by simp
qed

section \<open>The arguments of a query\<close>

text \<open>
  Claim C6 says that \<open>query\<close> fails for every empty question. The source has no check
  of the question. With external services that answer (the test doubles), the call with
  the empty question returns a result.
\<close>

theorem empty_question_is_answered:
  "fst (query (mock_services [paris_doc]) '''' ''s1'' initial_state) =
     Inr \<lparr>answer = '''',
          sources = [\<lparr>source = ''geo.pdf'', type = ''pdf'',
                       content_preview = ''Paris is the capital of France.''\<rparr>]\<rparr>"
  by (simp add: eval_defs source_of_def preview_def dict_get_def paris_doc_def)

text \<open>
  Claim C6, as amended. \<open>query\<close> does not inspect the question: for every question, the
  empty one included, the call returns the answer and the sources whenever the model
  client is constructed, the retriever is obtained, retrieval returns and generation
  returns; and when the call raises, the exception is the one that one of these four
  external calls raised. A call that leaves out the session id is the call with the
  session id \<^verbatim>\<open>"default"\<close>.
\<close>

theorem query_does_not_check_question:
  "(\<forall>rt docs ans.
      chat_openai_new sv = None
      \<and> fst (get_retriever sv 4 st) = Inr rt
      \<and> retriever_invoke sv 4 question = Inr docs
      \<and> chain_invoke sv
           ([(''system'', system_prompt)] @ fst (get_history session_id st)
              @ [(''human'', ''{question}'')])
           (format_docs docs) question = Inr ans
      \<longrightarrow> fst (query sv question session_id st)
            = Inr \<lparr>answer = ans, sources = map source_of docs\<rparr>)
   \<and> (\<forall>e. fst (query sv question session_id st) = Inl e \<longrightarrow>
        chat_openai_new sv = Some e
      \<or> fst (get_retriever sv 4 st) = Inl e
      \<or> retriever_invoke sv 4 question = Inl e
      \<or> (\<exists>docs. retriever_invoke sv 4 question = Inr docs
            \<and> chain_invoke sv
                 ([(''system'', system_prompt)] @ fst (get_history session_id st)
                    @ [(''human'', ''{question}'')])
                 (format_docs docs) question = Inl e))
   \<and> query_default_session sv question st = query sv question ''default'' st"
proof (intro conjI allI impI)
  fix rt docs ans
  assume "chat_openai_new sv = None
      \<and> fst (get_retriever sv 4 st) = Inr rt
      \<and> retriever_invoke sv 4 question = Inr docs
      \<and> chain_invoke sv
           ([(''system'', system_prompt)] @ fst (get_history session_id st)
              @ [(''human'', ''{question}'')])
           (format_docs docs) question = Inr ans"
  then show "fst (query sv question session_id st)
            = Inr \<lparr>answer = ans, sources = map source_of docs\<rparr>"
    using query_returns by blast
next
  fix e
  assume "fst (query sv question session_id st) = Inl e"
  from query_Inl_origin [OF this]
  show "chat_openai_new sv = Some e
      \<or> fst (get_retriever sv 4 st) = Inl e
      \<or> retriever_invoke sv 4 question = Inl e
      \<or> (\<exists>docs. retriever_invoke sv 4 question = Inr docs
            \<and> chain_invoke sv
                 ([(''system'', system_prompt)] @ fst (get_history session_id st)
                    @ [(''human'', ''{question}'')])
                 (format_docs docs) question = Inl e)" .
next
  show "query_default_session sv question st = query sv question ''default'' st"
    by (simp add: query_default_session_def)
qed

theorem query_does_not_check_question_witness:
  "fst (query_default_session (mock_services []) '''' initial_state) = Inr \<lparr>answer = '''', sources = []\<rparr>
   \<and> session_histories (snd (query_default_session (mock_services []) '''' initial_state)) ''default''
       = Some [(''human'', ''''), (''assistant'', '''')]"
proof -
  let ?sv = "mock_services []"
  have l: "chat_openai_new ?sv = None" by (simp add: mock_services_def spec_similarity_search_def)
  have g: "fst (get_retriever ?sv 4 initial_state) = Inr (retriever_invoke ?sv 4)"
    by (simp add: eval_defs)
  have d: "retriever_invoke ?sv 4 '''' = Inr []" by (simp add: mock_services_def spec_similarity_search_def)
  have c: "chain_invoke ?sv
           ([(''system'', system_prompt)] @ fst (get_history ''default'' initial_state)
              @ [(''human'', ''{question}'')])
           (format_docs []) '''' = Inr ''''"
    by (simp add: mock_services_def spec_similarity_search_def)
  from query_does_not_check_question [of ?sv initial_state "''''" "''default''"] l g d c
  have r: "fst (query ?sv '''' ''default'' initial_state) = Inr \<lparr>answer = '''', sources = []\<rparr>"
    and dflt: "query_default_session ?sv '''' initial_state = query ?sv '''' ''default'' initial_state"
    by (simp_all del: append.simps)
  from query_Inr [OF r] dflt r
  show ?thesis
    by (auto simp: get_history_def initial_state_def last_slice_def)
qed

section \<open>Isolation of sessions\<close>

text \<open>
  Every operation on one session commutes with replacing the entry of another session:
  it returns the same value and makes the same change.
\<close>

lemma get_vector_store_set_session:
  "get_vector_store sv (set_session s h st) =
     (fst (get_vector_store sv st), set_session s h (snd (get_vector_store sv st)))"
  by (simp add: get_vector_store_def init_pinecone_def get_embeddings_def set_session_def
      split: option.splits)

lemma get_retriever_set_session:
  "get_retriever sv k (set_session s h st) =
     (fst (get_retriever sv k st), set_session s h (snd (get_retriever sv k st)))"
  by (simp add: get_retriever_def get_vector_store_set_session split: prod.splits sum.splits)

lemma get_history_set_session:
  "s1 \<noteq> s2 \<Longrightarrow> get_history s1 (set_session s2 h st) =
     (fst (get_history s1 st), set_session s2 h (snd (get_history s1 st)))"
  by (auto simp: get_history_def set_session_def fun_upd_twist split: option.splits)

lemma clear_memory_set_session:
  "s1 \<noteq> s2 \<Longrightarrow> clear_memory s1 (set_session s2 h st) =
     (fst (clear_memory s1 st), set_session s2 h (snd (clear_memory s1 st)))"
  by (auto simp: clear_memory_def set_session_def fun_upd_twist split: option.splits)

lemma query_set_session:
  assumes "s1 \<noteq> s2"
  shows "query sv q s1 (set_session s2 h st) =
     (fst (query sv q s1 st), set_session s2 h (snd (query sv q s1 st)))"
proof -
  obtain rr st1 where g: "get_retriever sv 4 st = (rr, st1)" by (cases "get_retriever sv 4 st")
  then have g': "get_retriever sv 4 (set_session s2 h st) = (rr, set_session s2 h st1)"
    by (simp add: get_retriever_set_session)
  obtain hist st2 where gh: "get_history s1 st1 = (hist, st2)" by (cases "get_history s1 st1")
  then have gh': "get_history s1 (set_session s2 h st1) = (hist, set_session s2 h st2)"
    using assms by (simp add: get_history_set_session)
  have upd: "(set_session s2 h st2)\<lparr>session_histories :=
               (session_histories (set_session s2 h st2))(s1 \<mapsto> x)\<rparr>
             = set_session s2 h (st2\<lparr>session_histories := (session_histories st2)(s1 \<mapsto> x)\<rparr>)" for x
    using assms by (simp add: set_session_def fun_upd_twist)
  have upd2: "(set_session s2 h st2)\<lparr>session_histories :=
               ((session_histories (set_session s2 h st2))(s1 \<mapsto> x))(s1 \<mapsto> y)\<rparr>
             = set_session s2 h (st2\<lparr>session_histories := ((session_histories st2)(s1 \<mapsto> x))(s1 \<mapsto> y)\<rparr>)" for x y
    using assms by (simp add: set_session_def fun_upd_twist)
  show ?thesis
    using g g' gh gh' assms
    by (auto simp: query_def Let_def set_session_def fun_upd_twist split: option.splits sum.splits)
qed

lemma do_op_set_session:
  assumes "s1 \<noteq> s2"
  shows "do_op s1 x (set_session s2 h st) =
     (fst (do_op s1 x st), set_session s2 h (snd (do_op s1 x st)))"
  using assms
  by (cases x)
    (simp_all add: query_set_session get_history_set_session clear_memory_set_session
      split: prod.splits)

lemma do_ops_set_session:
  assumes "s1 \<noteq> s2"
  shows "do_ops s1 xs (set_session s2 h st) =
     (fst (do_ops s1 xs st), set_session s2 h (snd (do_ops s1 xs st)))"
proof (induction xs arbitrary: st)
  case Nil
  then show ?case by simp
next
  case (Cons x xs)
  obtain r st1 where d: "do_op s1 x st = (r, st1)" by (cases "do_op s1 x st")
  then have d': "do_op s1 x (set_session s2 h st) = (r, set_session s2 h st1)"
    using do_op_set_session [OF assms, of x h st] by simp
  show ?case
    using d d' Cons.IH [of st1] by (simp split: prod.splits)
qed

lemma session_histories_set_session: "session_histories (set_session s v st) s = v"
  by (simp add: set_session_def)

lemma set_session_same: "set_session s (session_histories st s) st = st"
  by (simp add: set_session_def)

text \<open>
  Claim C8. For distinct session ids \<open>s1\<close> and \<open>s2\<close>, a sequence of \<open>query\<close>,
  \<open>get_history\<close> and \<open>clear_memory\<close> operations on \<open>s1\<close> leaves the entry of \<open>s2\<close> as it
  was, and nothing the operations return depends on the entry of \<open>s2\<close>: replacing that
  entry by any other (\<open>h\<close>) before the sequence changes no returned value and no other
  part of the final state.
\<close>

theorem sessions_are_isolated:
  assumes "s1 \<noteq> s2"
  shows "session_histories (snd (do_ops s1 ops st)) s2 = session_histories st s2
       \<and> fst (do_ops s1 ops (set_session s2 h st)) = fst (do_ops s1 ops st)
       \<and> snd (do_ops s1 ops (set_session s2 h st)) = set_session s2 h (snd (do_ops s1 ops st))"
proof -
  have "session_histories (snd (do_ops s1 ops (set_session s2 v st))) s2 = v" for v
    by (simp add: do_ops_set_session [OF assms] session_histories_set_session)
  from this [of "session_histories st s2"]
  have a: "session_histories (snd (do_ops s1 ops st)) s2 = session_histories st s2"
    by (simp only: set_session_same)
  show ?thesis
    using a do_ops_set_session [OF assms, of ops h st] by simp
qed

theorem sessions_are_isolated_witness:
  "session_histories
     (snd (do_ops ''s1''
        [Query (mock_services [paris_doc]) ''q'', GetHistory, ClearMemory, GetHistory]
        (set_session ''s2'' (Some [(''human'', ''secret''), (''assistant'', ''kept'')])
           greeted_state))) ''s2''
     = Some [(''human'', ''secret''), (''assistant'', ''kept'')]
   \<and> fst (do_ops ''s1''
        [Query (mock_services [paris_doc]) ''q'', GetHistory, ClearMemory, GetHistory]
        (set_session ''s2'' (Some [(''human'', ''secret''), (''assistant'', ''kept'')])
           greeted_state))
     = [QueryReturned (Inr \<lparr>answer = ''q'', sources = [source_of paris_doc]\<rparr>),
        HistoryReturned
          [(''human'', ''hi''), (''assistant'', ''hello''), (''human'', ''q''), (''assistant'', ''q'')],
        ClearReturned True,
        HistoryReturned []]"
proof -
  have ne: "''s1'' \<noteq> ''s2''" by simp
  let ?ops = "[Query (mock_services [paris_doc]) ''q'', GetHistory, ClearMemory, GetHistory]"
  let ?h = "Some [(''human'', ''secret''), (''assistant'', ''kept'')]"
  from sessions_are_isolated [OF ne, of ?ops "set_session ''s2'' ?h greeted_state" ?h]
  have "session_histories (snd (do_ops ''s1'' ?ops (set_session ''s2'' ?h greeted_state))) ''s2''
          = ?h"
    by (simp add: session_histories_set_session)
  moreover from sessions_are_isolated [OF ne, of ?ops greeted_state ?h]
  have "fst (do_ops ''s1'' ?ops (set_session ''s2'' ?h greeted_state))
          = fst (do_ops ''s1'' ?ops greeted_state)"
    by simp
  moreover have "fst (do_ops ''s1'' ?ops greeted_state)
     = [QueryReturned (Inr \<lparr>answer = ''q'', sources = [source_of paris_doc]\<rparr>),
        HistoryReturned
          [(''human'', ''hi''), (''assistant'', ''hello''), (''human'', ''q''), (''assistant'', ''q'')],
        ClearReturned True,
        HistoryReturned []]"
    by (simp add: eval_defs greeted_state_def clear_memory_def)
  ultimately show ?thesis by simp
qed

section \<open>Resetting the index\<close>

text \<open>
  Claim C9. A returning call of \<open>delete_all_records\<close> has issued, in this order: one
  read of the index statistics, from which the total record count is taken; one
  delete-all on the default namespace \<^verbatim>\<open>""\<close>; and one delete-all for every other
  namespace that the statistics list. It returns the count read at the start. On the
  reference index, a returning call reports the number of records the index held and
  leaves it empty, so that a second call, made right after it, reports 0.
\<close>

theorem reset_reads_count_then_deletes:
  "(\<forall>r st' ix' log.
      delete_all_records sv api st ix = (Inr r, st', ix', log) \<longrightarrow>
      (\<exists>stats. describe_index_stats api ix = Inr stats
         \<and> log = DescribeIndexStats # DeleteAll [] #
             map DeleteAll (filter (\<lambda>ns. ns \<noteq> [])
               (map fst (case namespaces stats of None \<Rightarrow> [] | Some ns \<Rightarrow> ns)))
         \<and> deleted r
         \<and> previous_vector_count r =
             (case total_vector_count stats of None \<Rightarrow> 0 | Some n \<Rightarrow> n)))
   \<and> (\<forall>r1 st1 mix1 log1.
      delete_all_records sv mem_index_api st mix = (Inr r1, st1, mix1, log1) \<longrightarrow>
        previous_vector_count r1 = int (sum_list (map snd mix))
      \<and> mix1 = []
      \<and> fst (delete_all_records sv mem_index_api st1 mix1)
          = Inr \<lparr>deleted = True, previous_vector_count = 0\<rparr>)"
proof (intro conjI allI impI)
  fix r st' ix' log
  assume run: "delete_all_records sv api st ix = (Inr r, st', ix', log)"
  from delete_all_records_Inr [OF run] obtain stats pc ix1 where
    d: "describe_index_stats api ix = Inr stats"
    and l: "delete_namespaces api
             (map fst (case namespaces stats of None \<Rightarrow> [] | Some ns \<Rightarrow> ns))
             ix1 [DescribeIndexStats, DeleteAll []] = (None, ix', log)"
    and r: "r = \<lparr>deleted = True,
                previous_vector_count =
                  (case total_vector_count stats of None \<Rightarrow> 0 | Some n \<Rightarrow> n)\<rparr>"
    by blast
  from delete_namespaces_log [OF l] d r
  show "\<exists>stats. describe_index_stats api ix = Inr stats
         \<and> log = DescribeIndexStats # DeleteAll [] #
             map DeleteAll (filter (\<lambda>ns. ns \<noteq> [])
               (map fst (case namespaces stats of None \<Rightarrow> [] | Some ns \<Rightarrow> ns)))
         \<and> deleted r
         \<and> previous_vector_count r =
             (case total_vector_count stats of None \<Rightarrow> 0 | Some n \<Rightarrow> n)"
    by simp
next
  fix r1 st1 mix1 log1
  assume run: "delete_all_records sv mem_index_api st mix = (Inr r1, st1, mix1, log1)"
  from delete_all_records_Inr [OF run] obtain stats pc ix1 where
    ip: "init_pinecone sv st = (Inr pc, st1)" and pi: "pc_index sv = None"
    and d: "describe_index_stats mem_index_api mix = Inr stats"
    and d0: "delete_all mem_index_api [] mix = (None, ix1)"
    and l: "delete_namespaces mem_index_api
             (map fst (case namespaces stats of None \<Rightarrow> [] | Some ns \<Rightarrow> ns))
             ix1 [DescribeIndexStats, DeleteAll []] = (None, mix1, log1)"
    and r: "r1 = \<lparr>deleted = True,
                previous_vector_count =
                  (case total_vector_count stats of None \<Rightarrow> 0 | Some n \<Rightarrow> n)\<rparr>"
    by blast
  from d have stats: "stats = \<lparr>namespaces = Some (map (\<lambda>(n, c). (n, int c)) mix),
                    total_vector_count = Some (int (sum_list (map snd mix)))\<rparr>"
    by (simp add: mem_index_api_def)
  from d0 have ix1: "ix1 = filter (\<lambda>(n, c). n \<noteq> []) mix"
    by (simp add: mem_index_api_def)
  have keys: "map fst (map (\<lambda>(n, c). (n, int c)) mix) = map fst mix"
    by (induction mix) auto
  from l stats keys
  have "mix1 = filter (\<lambda>(n, c). n \<notin> set (filter (\<lambda>ns. ns \<noteq> []) (map fst mix))) ix1"
    by (simp add: delete_namespaces_mem)
  with ix1 have empty: "mix1 = []"
    by (force simp: filter_empty_conv)
  have second: "fst (delete_all_records sv mem_index_api st1 []) =
      Inr \<lparr>deleted = True, previous_vector_count = 0\<rparr>"
    using init_pinecone_Inr_cached [OF ip, of sv] pi
    by (simp add: delete_all_records_def mem_index_api_def)
  show "previous_vector_count r1 = int (sum_list (map snd mix))"
    using r stats by simp
  show "mix1 = []" by (fact empty)
  show "fst (delete_all_records sv mem_index_api st1 mix1)
          = Inr \<lparr>deleted = True, previous_vector_count = 0\<rparr>"
    using second empty by simp
qed

theorem reset_reads_count_then_deletes_witness:
  "delete_all_records (mock_services []) mem_index_api initial_state
      [('''', 3), (''tenant-a'', 2)]
     = (Inr \<lparr>deleted = True, previous_vector_count = 5\<rparr>,
        initial_state\<lparr>pinecone_client := Some Pinecone\<rparr>,
        [],
        [DescribeIndexStats, DeleteAll '''', DeleteAll ''tenant-a''])
   \<and> fst (delete_all_records (mock_services []) mem_index_api
          (initial_state\<lparr>pinecone_client := Some Pinecone\<rparr>) [])
     = Inr \<lparr>deleted = True, previous_vector_count = 0\<rparr>"
proof -
  let ?sv = "mock_services []"
  let ?mix = "[('''', 3), (''tenant-a'', 2)] :: mem_index"
  let ?st1 = "initial_state\<lparr>pinecone_client := Some Pinecone\<rparr>"
  have run: "delete_all_records ?sv mem_index_api initial_state ?mix
     = (Inr \<lparr>deleted = True, previous_vector_count = 5\<rparr>, ?st1, [],
        [DescribeIndexStats, DeleteAll '''', DeleteAll ''tenant-a''])"
    by (simp add: delete_all_records_def init_pinecone_def mock_services_def initial_state_def
        mem_index_api_def)
  from reset_reads_count_then_deletes [of ?sv mem_index_api initial_state ?mix ?mix] run
  have "fst (delete_all_records ?sv mem_index_api ?st1 [])
          = Inr \<lparr>deleted = True, previous_vector_count = 0\<rparr>"
    by blast
  with run show ?thesis by simp
qed

section \<open>Similarity search\<close>



section \<open>Chunking configuration\<close>

text \<open>
  Claim C3 says that \<open>chunk_documents\<close> fails whenever the overlap is at least the chunk
  size, the case of equal sizes included. The source compares the two sizes nowhere: the
  only check is the one in the constructor of the library's splitter, which rejects a
  larger overlap and accepts an equal one. With equal sizes the call returns the chunks.
\<close>

theorem equal_overlap_is_accepted:
  "chunk_documents (langchain_text_splitter whole_documents) [paris_doc] 100 100
     = Inr [paris_doc]"
  by (simp add: chunk_documents_def langchain_text_splitter_def text_splitter_init_def
      whole_documents_def)

text \<open>
  Claim C3, as amended. \<open>chunk_documents\<close> fails for every configuration in which the
  overlap is larger than the chunk size. For a positive chunk size and an overlap from 0
  up to the chunk size, the chunk size itself included, the configuration is accepted and
  the outcome is that of the library's \<^verbatim>\<open>split_documents\<close> on the given documents with
  exactly this chunk size, this overlap and the separators \<^verbatim>\<open>"\n\n"\<close>, \<^verbatim>\<open>"\n"\<close>,
  \<^verbatim>\<open>" "\<close>, \<^verbatim>\<open>""\<close>: a function of the documents and the two sizes alone.
\<close>

theorem chunk_documents_rejects_larger_overlap:
  "(csize < coverlap \<longrightarrow>
      (\<exists>e. chunk_documents (langchain_text_splitter split) documents csize coverlap = Inl e))
   \<and> (0 < csize \<and> 0 \<le> coverlap \<and> coverlap \<le> csize \<longrightarrow>
      chunk_documents (langchain_text_splitter split) documents csize coverlap
        = split \<lparr>chunk_size = csize, chunk_overlap = coverlap,
                  separators = [[CHR 0x0A, CHR 0x0A], [CHR 0x0A], '' '', '''']\<rparr> documents)"
  by (simp add: chunk_documents_def langchain_text_splitter_def text_splitter_init_def)

theorem chunk_documents_rejects_larger_overlap_witness:
  "chunk_documents (langchain_text_splitter whole_documents) [paris_doc] 100 200
     = Inl (Exn ''Got a larger chunk overlap than chunk size, should be smaller.'')
   \<and> chunk_documents_default (langchain_text_splitter whole_documents) [paris_doc]
     = Inr [paris_doc]"
proof -
  let ?lib = "langchain_text_splitter whole_documents"
  from chunk_documents_rejects_larger_overlap [of 100 200 whole_documents "[paris_doc]"]
  obtain e where e: "chunk_documents ?lib [paris_doc] 100 200 = Inl e"
    by auto
  have "chunk_documents ?lib [paris_doc] 100 200
     = Inl (Exn ''Got a larger chunk overlap than chunk size, should be smaller.'')"
    by (simp add: chunk_documents_def langchain_text_splitter_def text_splitter_init_def)
  moreover from chunk_documents_rejects_larger_overlap [of 1000 200 whole_documents "[paris_doc]"]
  have "chunk_documents ?lib [paris_doc] 1000 200 = Inr [paris_doc]"
    by (simp add: whole_documents_def)
  ultimately show ?thesis using e by (simp add: chunk_documents_default_def)
qed

end
